theory Spec2Isabelle
  imports Main "HOL-Library.Word"
begin

text \<open>
  A model of the tidit plugin: the list helpers and the insertion offset resolver of
  its utility module (\<open>LIST_BULLET_REGEX\<close>, \<open>LIST_TASK_REGEX\<close>,
  \<open>getInsertPositionAfterBullet\<close>, \<open>getInsertPositionInLineFromText\<close>), and from
  \<open>main.ts\<close> the timestamp formatter, the \<open>keyup\<close> handler with its rate guard and
  the two numeric fields of the settings tab.  Regular expressions are run by the
  backtracking matcher of the language specification; the date library is a parameter.
\<close>

section \<open>JavaScript strings and numbers\<close>

text \<open>
  A JavaScript string is a sequence of UTF-16 code units; \<open>length\<close>, \<open>substring\<close> and the
  indices of a regular-expression match all count code units.  \<open>js\<close> embeds an ASCII
  literal.
\<close>

type_synonym utf16 = "16 word"
type_synonym jsstring = "utf16 list"

definition js :: "string \<Rightarrow> jsstring" where
  "js cs = map of_char cs"

text \<open>
  The numbers of the program are integers or \<open>NaN\<close>: they come from \<open>parseInt\<close>,
  \<open>Math.min\<close> with an integer, string lengths and differences of millisecond clocks.
\<close>

datatype jsnum = NaN | Num int

text \<open>\<open>String.prototype.substring(start, end)\<close>: both indices are clamped to
  \<open>[0, length]\<close> and swapped when \<open>start > end\<close>.\<close>

definition substring :: "jsstring \<Rightarrow> int \<Rightarrow> int \<Rightarrow> jsstring" where
  "substring s a b =
     (let len = int (length s);
          a' = min (max a 0) len;
          b' = min (max b 0) len;
          lo = min a' b';
          hi = max a' b'
      in take (nat (hi - lo)) (drop (nat lo) s))"

section \<open>Regular expressions\<close>

text \<open>
  The character classes of the two patterns.  \<open>\s\<close> is ECMAScript's WhiteSpace together
  with LineTerminator; \<open>\d\<close> is \<open>[0-9]\<close>.
\<close>

definition isSpace :: "utf16 \<Rightarrow> bool" where
  "isSpace c =
     (let n = unat c in
      n = 9 \<or> n = 10 \<or> n = 11 \<or> n = 12 \<or> n = 13 \<or> n = 32 \<or> n = 160 \<or> n = 5760 \<or>
      (8192 \<le> n \<and> n \<le> 8202) \<or> n = 8232 \<or> n = 8233 \<or> n = 8239 \<or> n = 8287 \<or>
      n = 12288 \<or> n = 65279)"

definition isDigit :: "utf16 \<Rightarrow> bool" where
  "isDigit c = (48 \<le> unat c \<and> unat c \<le> 57)"

text \<open>\<open>[-*+]\<close>\<close>
definition isBulletChar :: "utf16 \<Rightarrow> bool" where
  "isBulletChar c = (unat c = 45 \<or> unat c = 42 \<or> unat c = 43)"

text \<open>\<open>[\.\)]\<close>\<close>
definition isDotParen :: "utf16 \<Rightarrow> bool" where
  "isDotParen c = (unat c = 46 \<or> unat c = 41)"

text \<open>\<open>\[\<close>, \<open>\]\<close> and \<open>[^\]]\<close>\<close>
definition isLBracket :: "utf16 \<Rightarrow> bool" where
  "isLBracket c = (unat c = 91)"

definition isRBracket :: "utf16 \<Rightarrow> bool" where
  "isRBracket c = (unat c = 93)"

definition notRBracket :: "utf16 \<Rightarrow> bool" where
  "notRBracket c = (unat c \<noteq> 93)"

text \<open>
  The fragment of the pattern language the program uses: the assertion \<open>^\<close> (no \<open>m\<close>
  flag: start of input only), a character class, sequence, alternation and the greedy
  \<open>*\<close>.  \<open>r+\<close> is \<open>r\<close> followed by \<open>r*\<close>.
\<close>

datatype rx = Bol | Cls "utf16 \<Rightarrow> bool" | Seq rx rx | Alt rx rx | Star rx

definition Plus :: "rx \<Rightarrow> rx" where
  "Plus r = Seq r (Star r)"

text \<open>
  The backtracking matcher of the ECMAScript specification, in continuation style:
  \<open>matcher r i s k\<close> matches \<open>r\<close> at index \<open>i\<close>, where \<open>s\<close> is the input from \<open>i\<close> on,
  and hands the end index and the rest of the input to the continuation \<open>k\<close>; \<open>None\<close>
  is failure, which makes the caller try its next alternative.  An iteration of \<open>*\<close>
  that consumes nothing fails, as in RepeatMatcher.
\<close>

fun matcher :: "rx \<Rightarrow> nat \<Rightarrow> jsstring \<Rightarrow> (nat \<Rightarrow> jsstring \<Rightarrow> nat option) \<Rightarrow> nat option" where
  "matcher Bol i s k = (if i = 0 then k i s else None)"
| "matcher (Cls p) i s k =
     (case s of [] \<Rightarrow> None | c # cs \<Rightarrow> if p c then k (Suc i) cs else None)"
| "matcher (Seq a b) i s k = matcher a i s (\<lambda>i' s'. matcher b i' s' k)"
| "matcher (Alt a b) i s k =
     (case matcher a i s k of Some e \<Rightarrow> Some e | None \<Rightarrow> matcher b i s k)"
| "matcher (Star r) i s k =
     (case matcher r i s (\<lambda>i' s'. if length s' < length s then matcher (Star r) i' s' k else None) of
        Some e \<Rightarrow> Some e
      | None \<Rightarrow> k i s)"

text \<open>
  RegExpBuiltinExec for a pattern without the \<open>g\<close> and \<open>y\<close> flags: try the start
  indices \<open>0, 1, \<dots>, length\<close> in turn.  The result is the index of the match and its
  end index.
\<close>

fun scan :: "rx \<Rightarrow> nat \<Rightarrow> jsstring \<Rightarrow> (nat \<times> nat) option" where
  "scan r i [] =
     (case matcher r i [] (\<lambda>e _. Some e) of Some e \<Rightarrow> Some (i, e) | None \<Rightarrow> None)"
| "scan r i (c # t) =
     (case matcher r i (c # t) (\<lambda>e _. Some e) of
        Some e \<Rightarrow> Some (i, e)
      | None \<Rightarrow> scan r (Suc i) t)"

definition regex_exec :: "rx \<Rightarrow> jsstring \<Rightarrow> (nat \<times> nat) option" where
  "regex_exec r s = scan r 0 s"

text \<open>\<open>RegExp.prototype.test\<close>\<close>
definition regex_test :: "rx \<Rightarrow> jsstring \<Rightarrow> bool" where
  "regex_test r s = (regex_exec r s \<noteq> None)"

text \<open>\<open>String.prototype.match\<close> for a pattern without \<open>g\<close>: the match's \<open>index\<close> and
  its text \<open>[0]\<close>, or null.\<close>
definition str_match :: "jsstring \<Rightarrow> rx \<Rightarrow> (nat \<times> jsstring) option" where
  "str_match s r =
     (case regex_exec r s of
        None \<Rightarrow> None
      | Some (i, e) \<Rightarrow> Some (i, take (e - i) (drop i s)))"

section \<open>The list helpers\<close>

text \<open>\<^verbatim>\<open>/^\s*([-*+]|\d+[\.\)])\s+/\<close>\<close>

definition bullet_marker :: rx where
  "bullet_marker = Alt (Cls isBulletChar) (Seq (Plus (Cls isDigit)) (Cls isDotParen))"

definition LIST_BULLET_REGEX :: rx where
  "LIST_BULLET_REGEX =
     Seq Bol (Seq (Star (Cls isSpace)) (Seq bullet_marker (Plus (Cls isSpace))))"

text \<open>\<^verbatim>\<open>/^\s*([-*+]|\d+[\.\)])\s+\[[^\]]*\]\s/\<close>\<close>

definition LIST_TASK_REGEX :: rx where
  "LIST_TASK_REGEX =
     Seq Bol (Seq (Star (Cls isSpace)) (Seq bullet_marker (Seq (Plus (Cls isSpace))
       (Seq (Cls isLBracket) (Seq (Star (Cls notRBracket)) (Seq (Cls isRBracket) (Cls isSpace)))))))"

definition isCursorInListLine :: "jsstring \<Rightarrow> bool" where
  "isCursorInListLine line = regex_test LIST_BULLET_REGEX line"

definition isListLineTask :: "jsstring \<Rightarrow> bool" where
  "isListLineTask line = regex_test LIST_TASK_REGEX line"

definition getInsertPositionAfterBullet :: "jsstring \<Rightarrow> int" where
  "getInsertPositionAfterBullet line =
     (case str_match line LIST_BULLET_REGEX of
        Some (index, m0) \<Rightarrow> int index + int (length m0)
      | None \<Rightarrow> - 1)"

text \<open>
  What the bullet pattern matches, written out: \<open>marker_len s\<close> is the length of the
  list marker at the start of \<open>s\<close> (one of \<open>-\<close>, \<open>*\<close>, \<open>+\<close>, or digits followed by
  \<open>.\<close> or \<open>)\<close>), and \<open>bullet_end line\<close> is the index after the indentation, the marker
  and the white space that follows it.  Both are proved equal to the pattern below.
\<close>

definition marker_len :: "jsstring \<Rightarrow> nat option" where
  "marker_len s =
     (case s of
        [] \<Rightarrow> None
      | c # t \<Rightarrow>
          if isBulletChar c then Some 1
          else if isDigit c then
            (case dropWhile isDigit t of
               [] \<Rightarrow> None
             | d # _ \<Rightarrow> if isDotParen d then Some (length (takeWhile isDigit t) + 2) else None)
          else None)"

definition bullet_end :: "jsstring \<Rightarrow> nat option" where
  "bullet_end line =
     (let ind = takeWhile isSpace line; r = dropWhile isSpace line in
      case marker_len r of
        None \<Rightarrow> None
      | Some n \<Rightarrow>
          let ws = takeWhile isSpace (drop n r) in
          if ws = [] then None else Some (length ind + n + length ws))"

text \<open>A list marker in the words of the glossary: an unordered marker \<open>-\<close>, \<open>*\<close>, \<open>+\<close>
  or an ordered one, \<open>N.\<close> or \<open>N)\<close>.\<close>

definition is_marker :: "jsstring \<Rightarrow> bool" where
  "is_marker mk =
     (case mk of
        [] \<Rightarrow> False
      | [c] \<Rightarrow> isBulletChar c
      | _ \<Rightarrow> list_all isDigit (butlast mk) \<and> isDotParen (last mk))"

section \<open>The date library\<close>

text \<open>
  The program formats and parses through moment.js, which is not part of it.  The
  library enters the model as two functions, fixed for the instant of a call:
  \<open>format_now z f\<close> is the text of the current instant, taken in zone \<open>z\<close>, under the
  pattern \<open>f\<close>; \<open>strict_parse f s\<close> is what \<open>moment(s, f, true)\<close> followed by
  \<open>isValid()\<close> does: the text fits the pattern, it does not, or the library throws.
  \<open>format_now\<close> is the text that formatting returns.  Formatting can also throw; on
  which patterns it does is a third function of the library, which the model of the
  whole call below takes beside these two.
\<close>

datatype zone = Local | Utc | Tz jsstring

datatype parsed = Valid | Invalid | Throws

record moment_lib =
  format_now :: "zone \<Rightarrow> jsnum option \<Rightarrow> jsstring \<Rightarrow> jsstring"
  strict_parse :: "jsstring \<Rightarrow> jsstring \<Rightarrow> parsed"

section \<open>The insertion offset resolver\<close>

text \<open>
  \<open>getInsertPositionInLineFromText\<close>.  The variable \<open>insertPosition\<close> starts at \<open>0\<close> and is
  set on a bullet line; \<open>finish\<close> is the code from the code-fence test to the end, which
  both paths run with their value of \<open>insertPosition\<close>.  The \<open>catch\<close> branch is the case
  \<open>Throws\<close>.
\<close>

definition getInsertPositionInLineFromText ::
  "moment_lib \<Rightarrow> jsstring \<Rightarrow> bool \<Rightarrow> jsstring \<Rightarrow> (jsstring \<Rightarrow> bool) \<Rightarrow> int" where
  "getInsertPositionInLineFromText lib lineText addTimestampToListLines timestampFormat
       isCodeBlockStartEnd =
     (let finish = (\<lambda>insertPosition.
            if isCodeBlockStartEnd lineText then - 1
            else
              let formattedTimestampLength =
                    int (length (format_now lib Local None timestampFormat))
              in case strict_parse lib timestampFormat
                        (substring lineText insertPosition
                           (insertPosition + formattedTimestampLength)) of
                   Valid \<Rightarrow> - 1
                 | Throws \<Rightarrow> - 1
                 | Invalid \<Rightarrow> insertPosition)
      in
        if isListLineTask lineText then - 1
        else if isCursorInListLine lineText then
          (if addTimestampToListLines then finish (getInsertPositionAfterBullet lineText)
           else - 1)
        else finish 0)"

text \<open>
  The call as a whole.  \<open>moment().format(timestampFormat)\<close> is evaluated after the
  code-fence test and before the \<open>try\<close> block, so an exception it throws is not caught
  and leaves the function; \<open>format_throws f\<close> says whether formatting throws on the
  pattern \<open>f\<close>.  Whenever the call returns, it returns the value of
  \<open>getInsertPositionInLineFromText\<close> (\<open>call_returns_value\<close> below).
\<close>

datatype js_error = TypeError

definition getInsertPositionInLineFromText_call ::
  "(jsstring \<Rightarrow> bool) \<Rightarrow> moment_lib \<Rightarrow> jsstring \<Rightarrow> bool \<Rightarrow> jsstring \<Rightarrow> (jsstring \<Rightarrow> bool)
     \<Rightarrow> js_error + int" where
  "getInsertPositionInLineFromText_call format_throws lib lineText addTimestampToListLines
       timestampFormat isCodeBlockStartEnd =
     (let finish = (\<lambda>insertPosition.
            if isCodeBlockStartEnd lineText then Inr (- 1)
            else if format_throws timestampFormat then Inl TypeError
            else
              let formattedTimestampLength =
                    int (length (format_now lib Local None timestampFormat))
              in case strict_parse lib timestampFormat
                        (substring lineText insertPosition
                           (insertPosition + formattedTimestampLength)) of
                   Valid \<Rightarrow> Inr (- 1)
                 | Throws \<Rightarrow> Inr (- 1)
                 | Invalid \<Rightarrow> Inr insertPosition)
      in
        if isListLineTask lineText then Inr (- 1)
        else if isCursorInListLine lineText then
          (if addTimestampToListLines then finish (getInsertPositionAfterBullet lineText)
           else Inr (- 1))
        else finish 0)"

section \<open>The plugin\<close>

record TiditPluginSettings =
  tiditOn :: bool
  timestampFormat :: jsstring
  addAfterDelay :: jsnum
  insertNewLineAfterTimestamp :: bool
  timezone :: jsstring
  useManualTimezoneOffset :: bool
  timezoneOffset :: jsnum

text \<open>The mutable fields of the plugin object; \<open>lastTimeStampInsertTimestamp\<close> is an
  instant in milliseconds since the epoch.\<close>

record TiditPlugin =
  settings :: TiditPluginSettings
  lastTimeStampInsertTimestamp :: int
  currFileName :: jsstring

definition getFormattedTimestamp :: "moment_lib \<Rightarrow> TiditPluginSettings \<Rightarrow> jsstring" where
  "getFormattedTimestamp lib st =
     (let z = (if timezone st \<noteq> js ''local'' \<and> timezone st \<noteq> js ''UTC'' then Tz (timezone st)
               else if timezone st = js ''UTC'' then Utc
               else Local);
          off = (if useManualTimezoneOffset st \<and> timezoneOffset st \<noteq> Num 0
                 then Some (timezoneOffset st) else None);
          timestamp = format_now lib z off (timestampFormat st)
      in if insertNewLineAfterTimestamp st then timestamp @ [10] else timestamp @ js '' '')"

definition resetTimeStampInsertTimestamp :: "TiditPlugin \<Rightarrow> TiditPlugin" where
  "resetTimeStampInsertTimestamp p = p\<lparr>lastTimeStampInsertTimestamp := 0\<rparr>"

text \<open>\<^verbatim>\<open>/^\s*[-*+]\s/.test(line) || /^\s*\d+\.\s/.test(line)\<close>\<close>

definition isDot :: "utf16 \<Rightarrow> bool" where
  "isDot c = (unat c = 46)"

definition plugin_isCursorInListLine :: "jsstring \<Rightarrow> bool" where
  "plugin_isCursorInListLine line =
     (regex_test (Seq Bol (Seq (Star (Cls isSpace)) (Seq (Cls isBulletChar) (Cls isSpace)))) line \<or>
      regex_test (Seq Bol (Seq (Star (Cls isSpace))
                    (Seq (Plus (Cls isDigit)) (Seq (Cls isDot) (Cls isSpace))))) line)"

text \<open>\<^verbatim>\<open>line.startsWith("`") || line.endsWith("```")\<close>\<close>

definition isCodeBlockStartEnd :: "jsstring \<Rightarrow> bool" where
  "isCodeBlockStartEnd line =
     (take 1 line = js ''`'' \<or>
      (3 \<le> length line \<and> drop (length line - 3) line = js ''```''))"

text \<open>\<open>String.prototype.trim\<close>\<close>
definition trim :: "jsstring \<Rightarrow> jsstring" where
  "trim s = rev (dropWhile isSpace (rev (dropWhile isSpace s)))"

text \<open>The editor of the host application: the cursor and the text of a line.\<close>

record editor =
  cursor_line :: int
  cursor_ch :: int
  getLine :: "int \<Rightarrow> jsstring"

definition getInsertPositionInLine :: "moment_lib \<Rightarrow> TiditPlugin \<Rightarrow> editor \<Rightarrow> int" where
  "getInsertPositionInLine lib p ed =
     (let lineText = getLine ed (cursor_line ed - 1) in
      if plugin_isCursorInListLine lineText then - 1
      else if isCodeBlockStartEnd lineText then - 1
      else
        let fmt = timestampFormat (settings p);
            formattedTimestampLength = int (length (format_now lib Local None fmt))
        in case strict_parse lib fmt (substring (trim lineText) 0 formattedTimestampLength) of
             Valid \<Rightarrow> - 1
           | Throws \<Rightarrow> - 1
           | Invalid \<Rightarrow> 0)"

text \<open>\<open>a < b\<close> on numbers: false when either side is \<open>NaN\<close>.\<close>
definition js_lt :: "jsnum \<Rightarrow> jsnum \<Rightarrow> bool" where
  "js_lt a b = (case (a, b) of (Num x, Num y) \<Rightarrow> x < y | _ \<Rightarrow> False)"

text \<open>\<open>now.diff(last, "seconds")\<close>: the difference of the two instants in seconds,
  rounded towards zero.\<close>
definition diff_seconds :: "int \<Rightarrow> int \<Rightarrow> int" where
  "diff_seconds now before =
     (let d = now - before in if d < 0 then - ((- d) div 1000) else d div 1000)"

text \<open>
  The \<open>keyup\<close> handler.  Its inputs are the key, the active editor and file of the
  workspace (either may be absent) and the two readings of the clock it takes; its
  result says where it returned, or what it inserted (line, column, text), and gives
  the plugin's fields afterwards.
\<close>

datatype keyup_result =
  TiditOff | NotEnter | NoEditor | NoFile | Throttled | NoPosition
  | Inserted int int jsstring

text \<open>\<open>insertTextAtLine\<close>: \<open>editor.replaceRange(text, {line, ch})\<close>, recorded as the
  insertion made.  Both branches of its conditional give the timestamp unchanged.\<close>

definition insertTextAtLine :: "TiditPluginSettings \<Rightarrow> int \<Rightarrow> int \<Rightarrow> jsstring \<Rightarrow> keyup_result" where
  "insertTextAtLine st line pos timestamp =
     (let formattedTimestamp = (if insertNewLineAfterTimestamp st then timestamp else timestamp)
      in Inserted line pos formattedTimestamp)"

definition keyup ::
  "moment_lib \<Rightarrow> jsstring \<Rightarrow> editor option \<Rightarrow> jsstring option \<Rightarrow> int \<Rightarrow> int \<Rightarrow> TiditPlugin
     \<Rightarrow> keyup_result \<times> TiditPlugin" where
  "keyup lib key active_editor active_file now now' p =
     (if \<not> tiditOn (settings p) then (TiditOff, p)
      else if key \<noteq> js ''Enter'' then (NotEnter, p)
      else case active_editor of
        None \<Rightarrow> (NoEditor, p)
      | Some ed \<Rightarrow>
         (case active_file of
            None \<Rightarrow> (NoFile, p)
          | Some name \<Rightarrow>
              let p1 = (if currFileName p \<noteq> name
                        then resetTimeStampInsertTimestamp (p\<lparr>currFileName := name\<rparr>)
                        else p)
              in if js_lt (Num (diff_seconds now (lastTimeStampInsertTimestamp p1)))
                      (addAfterDelay (settings p1))
                 then (Throttled, p1)
                 else
                   let pos = getInsertPositionInLine lib p1 ed in
                   if pos = - 1 then (NoPosition, p1)
                   else
                     let timestamp = getFormattedTimestamp lib (settings p1) in
                     (insertTextAtLine (settings p1) (max 0 (cursor_line ed - 1)) pos timestamp,
                      p1\<lparr>lastTimeStampInsertTimestamp := now'\<rparr>)))"

section \<open>The settings tab\<close>

text \<open>
  \<open>parseInt(s)\<close> without a radix: leading white space is skipped, then an optional
  sign, then \<open>0x\<close> or \<open>0X\<close> selects base 16; the longest run of digits is read and
  whatever follows is ignored; no digit at all gives \<open>NaN\<close>.  The value is the exact
  integer; the program's number is the nearest double, which is the same integer up to
  \<open>2^53\<close>.
\<close>

definition digit_val :: "nat \<Rightarrow> utf16 \<Rightarrow> nat option" where
  "digit_val radix c =
     (let n = unat c;
          v = (if 48 \<le> n \<and> n \<le> 57 then Some (n - 48)
               else if 97 \<le> n \<and> n \<le> 122 then Some (n - 87)
               else if 65 \<le> n \<and> n \<le> 90 then Some (n - 55)
               else None)
      in case v of None \<Rightarrow> None | Some d \<Rightarrow> if d < radix then Some d else None)"

definition digits_value :: "nat \<Rightarrow> jsstring \<Rightarrow> nat" where
  "digits_value radix ds = foldl (\<lambda>acc c. acc * radix + the (digit_val radix c)) 0 ds"

definition parseInt :: "jsstring \<Rightarrow> jsnum" where
  "parseInt s =
     (let s1 = dropWhile isSpace s;
          neg = (take 1 s1 = js ''-'');
          s2 = (if take 1 s1 = js ''-'' \<or> take 1 s1 = js ''+'' then drop 1 s1 else s1);
          hex = (take 2 s2 = js ''0x'' \<or> take 2 s2 = js ''0X'');
          radix = (if hex then 16 else 10);
          s3 = (if hex then drop 2 s2 else s2);
          ds = takeWhile (\<lambda>c. digit_val radix c \<noteq> None) s3
      in if ds = [] then NaN
         else Num ((if neg then - 1 else 1) * int (digits_value radix ds)))"

definition isNaN :: "jsnum \<Rightarrow> bool" where
  "isNaN x = (x = NaN)"

text \<open>\<open>Math.min(a, b)\<close>; \<open>Math.max(a)\<close> with its single argument.\<close>

definition Math_min :: "jsnum \<Rightarrow> jsnum \<Rightarrow> jsnum" where
  "Math_min a b = (case (a, b) of (Num x, Num y) \<Rightarrow> Num (min x y) | _ \<Rightarrow> NaN)"

definition Math_max1 :: "jsnum \<Rightarrow> jsnum" where
  "Math_max1 a = a"

definition saveSettings :: "TiditPlugin \<Rightarrow> TiditPlugin" where
  "saveSettings p = resetTimeStampInsertTimestamp p"

text \<open>The \<open>onChange\<close> handler of the text field "Add timestamp after delay".\<close>

definition addAfterDelay_onChange :: "jsstring \<Rightarrow> TiditPlugin \<Rightarrow> TiditPlugin" where
  "addAfterDelay_onChange v0 p =
     (let v = Math_max1 (Math_min (parseInt v0) (Num 1234))
      in saveSettings (p\<lparr>settings := (settings p)\<lparr>addAfterDelay := v\<rparr>\<rparr>))"

text \<open>The \<open>onChange\<close> handler of the text field "Manual Timezone Offset".\<close>

definition timezoneOffset_onChange :: "jsstring \<Rightarrow> TiditPlugin \<Rightarrow> TiditPlugin" where
  "timezoneOffset_onChange v0 p =
     (let offset = parseInt v0
      in if \<not> isNaN offset
         then saveSettings (p\<lparr>settings := (settings p)\<lparr>timezoneOffset := offset\<rparr>\<rparr>)
         else p)"

section \<open>Sample inputs\<close>

text \<open>
  A library behaviour to evaluate the model on, at the instant 2025-08-31 12:00:00 UTC:
  the two patterns below are written as moment.js writes them, and under each of them
  the text so written, and no other, parses.
\<close>

definition sample_format :: "jsstring \<Rightarrow> jsstring" where
  "sample_format f =
     (if f = js ''YYYY-MM-DD HH:mm:ssZ'' then js ''2025-08-31 12:00:00+00:00''
      else if f = js ''D. MMM YYYY'' then js ''31. Aug 2025''
      else [])"

definition sample_lib :: moment_lib where
  "sample_lib =
     \<lparr> format_now = (\<lambda>z off f. sample_format f),
       strict_parse = (\<lambda>f s. if s \<noteq> [] \<and> s = sample_format f then Valid else Invalid) \<rparr>"

text \<open>
  Where \<open>moment().format(f)\<close> throws: the last alternative of the library's tokenizer
  pattern is \<open>.\<close>, which matches no line terminator, so a non-empty pattern made only of
  line terminators has no token, \<open>format.match(formattingTokens)\<close> is \<open>null\<close> and
  reading its \<open>length\<close> is a TypeError.  (An empty pattern is replaced by the default
  one.)
\<close>

definition isLineTerminator :: "utf16 \<Rightarrow> bool" where
  "isLineTerminator c = (unat c = 10 \<or> unat c = 13 \<or> unat c = 8232 \<or> unat c = 8233)"

definition moment_format_throws :: "jsstring \<Rightarrow> bool" where
  "moment_format_throws f = (f \<noteq> [] \<and> list_all isLineTerminator f)"

definition sample_settings :: TiditPluginSettings where
  "sample_settings =
     \<lparr> tiditOn = True, timestampFormat = js ''YYYY-MM-DD HH:mm:ssZ'', addAfterDelay = Num 60,
       insertNewLineAfterTimestamp = False, timezone = js ''local'',
       useManualTimezoneOffset = False, timezoneOffset = Num 0 \<rparr>"

definition sample_plugin :: TiditPlugin where
  "sample_plugin =
     \<lparr> settings = sample_settings, lastTimeStampInsertTimestamp = 0, currFileName = js ''a.md'' \<rparr>"

text \<open>An editor whose cursor is on the second line, below the line \<open>plain text\<close>.\<close>

definition sample_editor :: editor where
  "sample_editor =
     \<lparr> cursor_line = 1, cursor_ch = 0,
       getLine = (\<lambda>i. if i = 0 then js ''plain text'' else []) \<rparr>"

text \<open>The same editor below a line that the plugin has stamped under the pattern
  \<open>D. MMM YYYY\<close>.\<close>

definition stamped_editor :: editor where
  "stamped_editor =
     \<lparr> cursor_line = 1, cursor_ch = 0,
       getLine = (\<lambda>i. if i = 0 then js ''31. Aug 2025 plain text'' else []) \<rparr>"

section \<open>What the bullet pattern matches\<close>

lemma class_disjoint:
  "isSpace c \<Longrightarrow> \<not> isBulletChar c" "isSpace c \<Longrightarrow> \<not> isDigit c"
  "isBulletChar c \<Longrightarrow> \<not> isDigit c" "isDigit c \<Longrightarrow> \<not> isDotParen c"
  "isSpace c \<Longrightarrow> \<not> isLBracket c"
  by (auto simp: isSpace_def isBulletChar_def isDigit_def isDotParen_def isLBracket_def Let_def)

lemma star_cls_Nil: "matcher (Star (Cls p)) i [] k = k i []"
  by simp

lemma star_cls_Cons:
  "matcher (Star (Cls p)) i (c # cs) k =
     (if p c then (case matcher (Star (Cls p)) (Suc i) cs k of Some e \<Rightarrow> Some e | None \<Rightarrow> k i (c # cs))
      else k i (c # cs))"
  by simp

lemma star_greedy_fail:
  assumes "\<And>j c t. p c \<Longrightarrow> k j (c # t) = None"
  shows "matcher (Star (Cls p)) i s k = k (i + length (takeWhile p s)) (dropWhile p s)"
proof (induction s arbitrary: i)
  case Nil
  show ?case by simp
next
  case (Cons c cs)
  show ?case
  proof (cases "p c")
    case True
    then show ?thesis
      using Cons.IH [of "Suc i"] assms [of c i cs]
      by (simp only: star_cls_Cons) (simp split: option.split)
  next
    case False
    then show ?thesis by (simp only: star_cls_Cons) simp
  qed
qed

lemma star_greedy_total:
  assumes "\<And>j t. k j t \<noteq> None"
  shows "matcher (Star (Cls p)) i s k = k (i + length (takeWhile p s)) (dropWhile p s)"
proof (induction s arbitrary: i)
  case Nil
  show ?case by simp
next
  case (Cons c cs)
  show ?case
  proof (cases "p c")
    case True
    then show ?thesis
      using Cons.IH [of "Suc i"] assms [of "Suc i + length (takeWhile p cs)" "dropWhile p cs"]
      by (simp only: star_cls_Cons) (auto split: option.split)
  next
    case False
    then show ?thesis by (simp only: star_cls_Cons) simp
  qed
qed


lemma marker_match:
  "matcher bullet_marker i s k =
     (case marker_len s of None \<Rightarrow> None | Some n \<Rightarrow> k (i + n) (drop n s))"
proof (cases s)
  case Nil
  then show ?thesis by (simp add: bullet_marker_def Plus_def marker_len_def)
next
  case (Cons c t)
  let ?k' = "\<lambda>i' s'. matcher (Cls isDotParen) i' s' k"
  have fail: "\<And>j d u. isDigit d \<Longrightarrow> ?k' j (d # u) = None"
    by (simp add: class_disjoint)
  have digits: "matcher (Star (Cls isDigit)) (Suc i) t ?k' =
      ?k' (Suc i + length (takeWhile isDigit t)) (dropWhile isDigit t)"
    by (rule star_greedy_fail) (rule fail)
  show ?thesis
  proof (cases "isBulletChar c")
    case True
    then show ?thesis
      using Cons class_disjoint(3) [of c]
      by (simp add: bullet_marker_def Plus_def marker_len_def split: option.split)
  next
    case False
    show ?thesis
    proof (cases "isDigit c")
      case True
      have "matcher bullet_marker i s k = matcher (Star (Cls isDigit)) (Suc i) t ?k'"
        using Cons False True by (simp add: bullet_marker_def Plus_def)
      also have "\<dots> = ?k' (Suc i + length (takeWhile isDigit t)) (dropWhile isDigit t)"
        by (rule digits)
      also have "\<dots> = (case marker_len s of None \<Rightarrow> None | Some n \<Rightarrow> k (i + n) (drop n s))"
      proof (cases "dropWhile isDigit t")
        case Nil
        then show ?thesis using Cons False True
          by (simp add: marker_len_def del: dropWhile_eq_Nil_conv)
      next
        case dw: (Cons d r)
        have "drop 1 (drop (length (takeWhile isDigit t)) t) = r"
          using dw by (simp add: dropWhile_eq_drop [symmetric])
        then have "drop (Suc (length (takeWhile isDigit t))) t = r"
          by (simp only: drop_drop) simp
        then show ?thesis using Cons False True dw
          by (simp add: marker_len_def)
      qed
      finally show ?thesis .
    next
      case nd: False
      then show ?thesis
        using Cons False by (simp add: bullet_marker_def Plus_def marker_len_def)
    qed
  qed
qed


lemma plus_cls_total:
  assumes "\<And>j t. k j t \<noteq> None"
  shows "matcher (Plus (Cls p)) i s k =
     (case s of [] \<Rightarrow> None
      | c # t \<Rightarrow> if p c then k (Suc i + length (takeWhile p t)) (dropWhile p t) else None)"
  using star_greedy_total [of k p, OF assms]
  by (simp add: Plus_def split: list.split)

lemma plus_cls_fail:
  assumes "\<And>j c t. p c \<Longrightarrow> k j (c # t) = None"
  shows "matcher (Plus (Cls p)) i s k =
     (case s of [] \<Rightarrow> None
      | c # t \<Rightarrow> if p c then k (Suc i + length (takeWhile p t)) (dropWhile p t) else None)"
  using star_greedy_fail [of p k, OF assms]
  by (simp add: Plus_def split: list.split)

lemma marker_len_space: "isSpace c \<Longrightarrow> marker_len (c # t) = None"
  by (simp add: marker_len_def class_disjoint)

lemma bullet_matcher:
  "matcher LIST_BULLET_REGEX 0 line (\<lambda>e _. Some e) = bullet_end line"
proof -
  let ?fin = "\<lambda>(e::nat) (_::jsstring). Some e"
  let ?k2 = "\<lambda>i s. matcher (Plus (Cls isSpace)) i s ?fin"
  let ?k1 = "\<lambda>i s. matcher bullet_marker i s ?k2"
  let ?r = "dropWhile isSpace line"
  let ?n0 = "length (takeWhile isSpace line)"
  have k2: "?k2 i s = (case s of [] \<Rightarrow> None
      | c # t \<Rightarrow> if isSpace c then Some (Suc i + length (takeWhile isSpace t)) else None)" for i s
    by (rule plus_cls_total) simp
  have k1_fail: "\<And>j c t. isSpace c \<Longrightarrow> ?k1 j (c # t) = None"
    by (simp add: marker_match marker_len_space)
  have "matcher LIST_BULLET_REGEX 0 line ?fin = matcher (Star (Cls isSpace)) 0 line ?k1"
    by (simp add: LIST_BULLET_REGEX_def)
  also have "\<dots> = ?k1 (0 + ?n0) ?r"
    by (rule star_greedy_fail) (rule k1_fail)
  also have "\<dots> = (case marker_len ?r of None \<Rightarrow> None | Some n \<Rightarrow> ?k2 (?n0 + n) (drop n ?r))"
    by (simp add: marker_match)
  also have "\<dots> = bullet_end line"
    by (simp add: k2 bullet_end_def Let_def split: option.split list.split)
  finally show ?thesis .
qed

lemma scan_bol: "scan (Seq Bol r) (Suc i) s = None"
  by (induction s arbitrary: i) simp_all

lemma exec_bol:
  "regex_exec (Seq Bol r) s =
     (case matcher r 0 s (\<lambda>e _. Some e) of Some e \<Rightarrow> Some (0, e) | None \<Rightarrow> None)"
  by (cases s) (simp_all add: regex_exec_def scan_bol split: option.split)

lemma bullet_exec:
  "regex_exec LIST_BULLET_REGEX line =
     (case bullet_end line of Some e \<Rightarrow> Some (0, e) | None \<Rightarrow> None)"
proof -
  have "matcher (Seq (Star (Cls isSpace)) (Seq bullet_marker (Plus (Cls isSpace)))) 0 line
          (\<lambda>e _. Some e) = bullet_end line"
    using bullet_matcher [of line] by (simp add: LIST_BULLET_REGEX_def)
  then show ?thesis
    unfolding LIST_BULLET_REGEX_def exec_bol by simp
qed

lemma marker_len_bounds:
  assumes "marker_len s = Some n"
  shows "0 < n \<and> n \<le> length s"
proof (cases s)
  case Nil
  with assms show ?thesis by (simp add: marker_len_def)
next
  case (Cons c t)
  have "length (takeWhile isDigit t) + length (dropWhile isDigit t) = length t"
    by (metis length_append takeWhile_dropWhile_id)
  then show ?thesis
    using assms Cons
    by (auto simp: marker_len_def split: if_splits list.splits)
qed

lemma bullet_end_le:
  assumes "bullet_end line = Some e"
  shows "e \<le> length line"
proof -
  let ?ind = "takeWhile isSpace line" and ?r = "dropWhile isSpace line"
  from assms obtain n where n: "marker_len ?r = Some n"
    and e: "e = length ?ind + n + length (takeWhile isSpace (drop n ?r))"
    by (auto simp: bullet_end_def Let_def split: option.splits if_splits)
  have "n \<le> length ?r" using marker_len_bounds [OF n] by simp
  moreover have "length (takeWhile isSpace (drop n ?r)) \<le> length ?r - n"
    using length_takeWhile_le [of isSpace "drop n ?r"] by simp
  moreover have "length ?ind + length ?r = length line"
    by (metis length_append takeWhile_dropWhile_id)
  ultimately show ?thesis using e by linarith
qed

lemma isCursorInListLine_iff: "isCursorInListLine line = (bullet_end line \<noteq> None)"
  by (simp add: isCursorInListLine_def regex_test_def bullet_exec split: option.split)

lemma getInsertPositionAfterBullet_eq:
  "getInsertPositionAfterBullet line =
     (case bullet_end line of Some e \<Rightarrow> int e | None \<Rightarrow> - 1)"
  using bullet_end_le [of line]
  by (simp add: getInsertPositionAfterBullet_def str_match_def bullet_exec split: option.split)

text \<open>A line that matches the task pattern matches the bullet pattern too.\<close>

lemma task_matcher_bullet:
  assumes "matcher LIST_TASK_REGEX 0 line (\<lambda>e _. Some e) \<noteq> None"
  shows "bullet_end line \<noteq> None"
proof -
  define k3 where "k3 = (\<lambda>i s. matcher (Seq (Cls isLBracket)
      (Seq (Star (Cls notRBracket)) (Seq (Cls isRBracket) (Cls isSpace)))) i s (\<lambda>e _. Some e))"
  let ?k2 = "\<lambda>i s. matcher (Plus (Cls isSpace)) i s k3"
  let ?k1 = "\<lambda>i s. matcher bullet_marker i s ?k2"
  let ?r = "dropWhile isSpace line"
  let ?n0 = "length (takeWhile isSpace line)"
  have k3_fail: "\<And>j c t. isSpace c \<Longrightarrow> k3 j (c # t) = None"
    by (simp add: k3_def class_disjoint)
  have k2: "?k2 i s = (case s of [] \<Rightarrow> None
      | c # t \<Rightarrow> if isSpace c then k3 (Suc i + length (takeWhile isSpace t)) (dropWhile isSpace t)
                 else None)" for i s
    by (rule plus_cls_fail) (rule k3_fail)
  have k1_fail: "\<And>j c t. isSpace c \<Longrightarrow> ?k1 j (c # t) = None"
    by (simp add: marker_match marker_len_space)
  have "matcher LIST_TASK_REGEX 0 line (\<lambda>e _. Some e) = matcher (Star (Cls isSpace)) 0 line ?k1"
    unfolding LIST_TASK_REGEX_def k3_def matcher.simps(1,3) by simp
  also have "\<dots> = ?k1 (0 + ?n0) ?r"
    by (rule star_greedy_fail) (rule k1_fail)
  also have "\<dots> = (case marker_len ?r of None \<Rightarrow> None | Some n \<Rightarrow> ?k2 (?n0 + n) (drop n ?r))"
    by (simp add: marker_match)
  finally have m: "matcher LIST_TASK_REGEX 0 line (\<lambda>e _. Some e) =
      (case marker_len ?r of None \<Rightarrow> None | Some n \<Rightarrow> ?k2 (?n0 + n) (drop n ?r))" .
  from assms m obtain n where n: "marker_len ?r = Some n" and k: "?k2 (?n0 + n) (drop n ?r) \<noteq> None"
    by (cases "marker_len ?r") auto
  from k obtain c t where "drop n ?r = c # t" "isSpace c"
    unfolding k2 by (cases "drop n ?r") (auto split: if_splits)
  then have "takeWhile isSpace (drop n ?r) \<noteq> []" by simp
  then show ?thesis
    using n by (simp add: bullet_end_def Let_def)
qed

lemma task_is_bullet:
  assumes "isListLineTask line"
  shows "isCursorInListLine line"
proof -
  have "matcher (Seq (Star (Cls isSpace)) (Seq bullet_marker (Seq (Plus (Cls isSpace))
       (Seq (Cls isLBracket) (Seq (Star (Cls notRBracket)) (Seq (Cls isRBracket) (Cls isSpace)))))))
       0 line (\<lambda>e _. Some e) \<noteq> None"
    using assms unfolding isListLineTask_def regex_test_def LIST_TASK_REGEX_def exec_bol
    by (simp split: option.splits)
  then have "matcher LIST_TASK_REGEX 0 line (\<lambda>e _. Some e) \<noteq> None"
    by (simp add: LIST_TASK_REGEX_def)
  then show ?thesis
    unfolding isCursorInListLine_iff by (rule task_matcher_bullet)
qed

lemma marker_len_is_marker:
  assumes "marker_len s = Some n"
  shows "is_marker (take n s)"
proof (cases s)
  case Nil
  with assms show ?thesis by (simp add: marker_len_def)
next
  case (Cons c t)
  show ?thesis
  proof (cases "isBulletChar c")
    case True
    with assms Cons have "n = 1" by (simp add: marker_len_def)
    with True Cons show ?thesis by (simp add: is_marker_def)
  next
    case False
    with assms Cons obtain d u where dig: "isDigit c"
      and dw: "dropWhile isDigit t = d # u" and d: "isDotParen d"
      and n: "n = length (takeWhile isDigit t) + 2"
      by (auto simp: marker_len_def split: if_splits list.splits)
    define tw where "tw = takeWhile isDigit t"
    have t: "t = tw @ d # u"
      using dw takeWhile_dropWhile_id [of isDigit t] by (simp add: tw_def)
    have n': "n = length tw + 2" using n by (simp add: tw_def)
    have "take n s = c # tw @ [d]"
      using Cons n' t by simp
    moreover have "list_all isDigit tw"
      unfolding tw_def list_all_iff by (meson set_takeWhileD)
    ultimately show ?thesis
      using dig d by (cases tw) (simp_all add: is_marker_def butlast_append)
  qed
qed

lemma bullet_end_decomp:
  assumes "bullet_end line = Some e"
  shows "\<exists>ind mk ws rest.
           line = ind @ mk @ ws @ rest \<and> list_all isSpace ind \<and> is_marker mk \<and>
           ws \<noteq> [] \<and> list_all isSpace ws \<and> (rest = [] \<or> \<not> isSpace (hd rest)) \<and>
           e = length (ind @ mk @ ws)"
proof -
  let ?ind = "takeWhile isSpace line" and ?r = "dropWhile isSpace line"
  from assms obtain n where n: "marker_len ?r = Some n"
    and ws: "takeWhile isSpace (drop n ?r) \<noteq> []"
    and e: "e = length ?ind + n + length (takeWhile isSpace (drop n ?r))"
    by (auto simp: bullet_end_def Let_def split: option.splits if_splits)
  let ?mk = "take n ?r"
  let ?ws = "takeWhile isSpace (drop n ?r)" and ?rest = "dropWhile isSpace (drop n ?r)"
  have len: "length ?mk = n" using marker_len_bounds [OF n] by simp
  have "line = ?ind @ ?mk @ ?ws @ ?rest" by simp
  moreover have "list_all isSpace ?ind" "list_all isSpace ?ws"
    by (simp_all add: list_all_iff) (meson set_takeWhileD)+
  moreover have "is_marker ?mk" by (rule marker_len_is_marker [OF n])
  moreover have "?rest = [] \<or> \<not> isSpace (hd ?rest)"
    using hd_dropWhile [of isSpace "drop n ?r"] by blast
  moreover have "e = length (?ind @ ?mk @ ?ws)" using e len by simp
  ultimately show ?thesis using ws by blast
qed


lemma is_marker_len:
  assumes "is_marker mk"
  shows "marker_len (mk @ rest) = Some (length mk)"
proof (cases mk)
  case Nil
  with assms show ?thesis by (simp add: is_marker_def)
next
  case (Cons c cs)
  show ?thesis
  proof (cases cs rule: rev_cases)
    case Nil
    with assms Cons show ?thesis by (simp add: is_marker_def marker_len_def)
  next
    case (snoc ds d)
    with assms Cons have c: "isDigit c" and ds: "list_all isDigit ds" and d: "isDotParen d"
      by (cases ds; simp add: is_marker_def butlast_append)+
    have nb: "\<not> isBulletChar c" using c class_disjoint(3) by blast
    have nd: "\<not> isDigit d" using d class_disjoint(4) by blast
    have tw: "takeWhile isDigit (ds @ d # rest) = ds"
      using ds nd by (simp add: list_all_iff takeWhile_append2)
    have dw: "dropWhile isDigit (ds @ d # rest) = d # rest"
      using ds nd by (simp add: list_all_iff dropWhile_append2)
    show ?thesis
      using Cons snoc c nb d tw dw by (simp add: marker_len_def)
  qed
qed

lemma is_marker_not_space:
  assumes "is_marker mk"
  shows "mk \<noteq> [] \<and> \<not> isSpace (hd mk)"
proof (cases mk)
  case Nil
  with assms show ?thesis by (simp add: is_marker_def)
next
  case (Cons c cs)
  with assms have "isBulletChar c \<or> isDigit c"
    by (cases cs) (simp_all add: is_marker_def)
  then show ?thesis using Cons class_disjoint(1,2) by auto
qed

lemma bullet_end_unique:
  assumes "line = ind @ mk @ ws @ rest" "list_all isSpace ind" "is_marker mk" "ws \<noteq> []"
    "list_all isSpace ws" "rest = [] \<or> \<not> isSpace (hd rest)"
  shows "bullet_end line = Some (length (ind @ mk @ ws))"
proof -
  from is_marker_not_space [OF assms(3)] obtain c cs where mk: "mk = c # cs" and c: "\<not> isSpace c"
    by (cases mk) auto
  have tw: "takeWhile isSpace line = ind"
    using assms(1,2) mk c by (simp add: list_all_iff takeWhile_append2)
  have dw: "dropWhile isSpace line = mk @ ws @ rest"
    using assms(1,2) mk c by (simp add: list_all_iff dropWhile_append2)
  have ml: "marker_len (mk @ ws @ rest) = Some (length mk)"
    by (rule is_marker_len [OF assms(3)])
  have tw2: "takeWhile isSpace (ws @ rest) = ws"
    using assms(5,6) by (cases rest) (simp_all add: list_all_iff takeWhile_append2)
  show ?thesis
    using assms(4) by (simp add: bullet_end_def Let_def tw dw ml tw2)
qed

lemma after_bullet_range:
  assumes "isCursorInListLine line"
  shows "0 \<le> getInsertPositionAfterBullet line \<and>
         getInsertPositionAfterBullet line \<le> int (length line)"
proof -
  from assms obtain e where e: "bullet_end line = Some e"
    by (auto simp: isCursorInListLine_iff)
  then show ?thesis
    using bullet_end_le [OF e] by (simp add: getInsertPositionAfterBullet_eq)
qed

lemma after_bullet_sentinel:
  "(getInsertPositionAfterBullet line = - 1) = (\<not> isCursorInListLine line)"
  by (simp add: getInsertPositionAfterBullet_eq isCursorInListLine_iff split: option.split)

lemma substring_inserted:
  assumes "p \<le> length line"
  shows "substring (take p line @ ts @ rest) (int p) (int p + int (length ts)) = ts"
proof -
  let ?s = "take p line @ ts @ rest"
  have len: "int (length ?s) = int p + int (length ts) + int (length rest)"
    using assms by simp
  have a: "min (max (int p) 0) (int (length ?s)) = int p"
    unfolding len by simp
  have b: "min (max (int p + int (length ts)) 0) (int (length ?s)) = int p + int (length ts)"
    unfolding len by simp
  have "substring ?s (int p) (int p + int (length ts)) = take (length ts) (drop p ?s)"
    unfolding substring_def Let_def a b by simp
  also have "\<dots> = ts" using assms by simp
  finally show ?thesis .
qed

section \<open>Evaluation on concrete lines\<close>

lemmas rx_eval = js_def isSpace_def isDigit_def isBulletChar_def isDotParen_def isLBracket_def
  isRBracket_def notRBracket_def isDot_def Plus_def bullet_marker_def LIST_BULLET_REGEX_def
  LIST_TASK_REGEX_def regex_test_def regex_exec_def str_match_def isCursorInListLine_def
  isListLineTask_def getInsertPositionAfterBullet_def

lemma sample_lib_default:
  "length (format_now sample_lib z off (js ''YYYY-MM-DD HH:mm:ssZ'')) = 25"
  "format_now sample_lib z off (js ''YYYY-MM-DD HH:mm:ssZ'') = js ''2025-08-31 12:00:00+00:00''"
  "strict_parse sample_lib (js ''YYYY-MM-DD HH:mm:ssZ'') (js ''2025-08-31 12:00:00+00:00'') = Valid"
  "strict_parse sample_lib (js ''YYYY-MM-DD HH:mm:ssZ'') (js ''item'') = Invalid"
  "strict_parse sample_lib (js ''YYYY-MM-DD HH:mm:ssZ'') (js ''plain text'') = Invalid"
  by (simp_all add: sample_lib_def sample_format_def js_def)

lemma sample_lines:
  "isCursorInListLine (js ''  3. item'')" "\<not> isListLineTask (js ''  3. item'')"
  "getInsertPositionAfterBullet (js ''  3. item'') = 5"
  "isCursorInListLine (js ''- item'')" "\<not> isListLineTask (js ''- item'')"
  "getInsertPositionAfterBullet (js ''- item'') = 2"
  "isCursorInListLine (js ''1. item'')" "\<not> isListLineTask (js ''1. item'')"
  "getInsertPositionAfterBullet (js ''1. item'') = 3"
  "\<not> isCursorInListLine (js ''plain text'')" "\<not> isListLineTask (js ''plain text'')"
  by (simp_all add: rx_eval)

lemma sample_fences:
  "\<not> isCodeBlockStartEnd (js ''  3. item'')" "\<not> isCodeBlockStartEnd (js ''- item'')"
  "\<not> isCodeBlockStartEnd (js ''1. item'')" "\<not> isCodeBlockStartEnd (js ''plain text'')"
  by (simp_all add: isCodeBlockStartEnd_def js_def)

lemma sample_substrings:
  "substring (js ''  3. item'') 5 30 = js ''item''"
  "substring (js ''- item'') 2 27 = js ''item''"
  "substring (js ''1. item'') 3 28 = js ''item''"
  "substring (js ''plain text'') 0 25 = js ''plain text''"
  by (simp_all add: substring_def js_def)

lemma sample_stamped:
  "\<not> isCursorInListLine (js ''2025-08-31 12:00:00+00:00 something'')"
  "\<not> isListLineTask (js ''2025-08-31 12:00:00+00:00 something'')"
  "\<not> isCodeBlockStartEnd (js ''2025-08-31 12:00:00+00:00 something'')"
  "substring (js ''2025-08-31 12:00:00+00:00 something'') 0 25 = js ''2025-08-31 12:00:00+00:00''"
  by (simp_all add: rx_eval isCodeBlockStartEnd_def substring_def)

lemma sample_counter:
  "format_now sample_lib z off (js ''D. MMM YYYY'') = js ''31. Aug 2025''"
  "length (format_now sample_lib z off (js ''D. MMM YYYY'')) = 12"
  "strict_parse sample_lib (js ''D. MMM YYYY'') (js ''31. Aug 2025'') = Valid"
  "strict_parse sample_lib (js ''D. MMM YYYY'') (js ''plain text'') = Invalid"
  "strict_parse sample_lib (js ''D. MMM YYYY'') (js ''Aug 2025 pla'') = Invalid"
  by (simp_all add: sample_lib_def sample_format_def js_def)

lemma sample_counter_line:
  "isCursorInListLine (js ''31. Aug 2025 plain text'')"
  "\<not> isListLineTask (js ''31. Aug 2025 plain text'')"
  "getInsertPositionAfterBullet (js ''31. Aug 2025 plain text'') = 4"
  "\<not> isCodeBlockStartEnd (js ''31. Aug 2025 plain text'')"
  "substring (js ''31. Aug 2025 plain text'') 4 16 = js ''Aug 2025 pla''"
  "substring (js ''plain text'') 0 12 = js ''plain text''"
  by (simp_all add: rx_eval isCodeBlockStartEnd_def substring_def)

lemma sample_restamped:
  "getInsertPositionInLineFromText sample_lib (js ''- item'') True (js ''YYYY-MM-DD HH:mm:ssZ'')
     isCodeBlockStartEnd = 2"
  "getFormattedTimestamp sample_lib sample_settings = js ''2025-08-31 12:00:00+00:00'' @ js '' ''"
  "take 2 (js ''- item'') @ (js ''2025-08-31 12:00:00+00:00'' @ js '' '') @ drop 2 (js ''- item'')
     = js ''- 2025-08-31 12:00:00+00:00 item''"
  "isCursorInListLine (js ''- 2025-08-31 12:00:00+00:00 item'')"
  "getInsertPositionAfterBullet (js ''- 2025-08-31 12:00:00+00:00 item'') = 2"
  by (simp_all add: getInsertPositionInLineFromText_def sample_lines sample_fences
        sample_lib_default(1,3,4,5) sample_substrings getFormattedTimestamp_def
        sample_settings_def)
     (simp_all add: rx_eval sample_lib_def sample_format_def)

lemma parseInt_samples:
  "parseInt (js ''-5'') = Num (- 5)" "parseInt (js ''abc'') = NaN" "parseInt (js ''90'') = Num 90"
  "parseInt (js ''5000'') = Num 5000"
  by (simp_all add: parseInt_def digit_val_def digits_value_def js_def isSpace_def Let_def)


lemma sample_previous_line:
  "getLine sample_editor (cursor_line sample_editor - 1) = js ''plain text''"
  "\<not> plugin_isCursorInListLine (js ''plain text'')"
  "trim (js ''plain text'') = js ''plain text''"
  by (simp_all add: sample_editor_def plugin_isCursorInListLine_def trim_def rx_eval)

lemma sample_position:
  "getInsertPositionInLine sample_lib sample_plugin sample_editor = 0"
  by (simp add: getInsertPositionInLine_def sample_previous_line sample_fences Let_def
      sample_plugin_def sample_settings_def sample_lib_default(1,5) sample_substrings)

lemma sample_keyup:
  "keyup sample_lib (js ''Enter'') (Some sample_editor) (Some (js ''a.md'')) 61000 61001 sample_plugin
     = (Inserted 0 0 (js ''2025-08-31 12:00:00+00:00 ''),
        sample_plugin\<lparr>lastTimeStampInsertTimestamp := 61001\<rparr>)"
  "keyup sample_lib (js ''Enter'') (Some sample_editor) (Some (js ''a.md'')) 59999 60000 sample_plugin
     = (Throttled, sample_plugin)"
proof -
  have f: "tiditOn (settings sample_plugin)" "addAfterDelay (settings sample_plugin) = Num 60"
    "currFileName sample_plugin = js ''a.md''" "lastTimeStampInsertTimestamp sample_plugin = 0"
    "cursor_line sample_editor = 1"
    by (simp_all add: sample_plugin_def sample_settings_def sample_editor_def)
  have t: "getFormattedTimestamp sample_lib (settings sample_plugin) = js ''2025-08-31 12:00:00+00:00 ''"
    by (simp add: getFormattedTimestamp_def sample_plugin_def sample_settings_def sample_lib_def
        sample_format_def js_def)
  show "keyup sample_lib (js ''Enter'') (Some sample_editor) (Some (js ''a.md'')) 61000 61001 sample_plugin
     = (Inserted 0 0 (js ''2025-08-31 12:00:00+00:00 ''),
        sample_plugin\<lparr>lastTimeStampInsertTimestamp := 61001\<rparr>)"
    by (simp add: keyup_def f t sample_position js_lt_def diff_seconds_def Let_def
        insertTextAtLine_def)
  show "keyup sample_lib (js ''Enter'') (Some sample_editor) (Some (js ''a.md'')) 59999 60000 sample_plugin
     = (Throttled, sample_plugin)"
    by (simp add: keyup_def f js_lt_def diff_seconds_def Let_def)
qed


lemma sample_stamped_start:
  "substring (js ''31. Aug 2025 plain text'') 0 12 = js ''31. Aug 2025''"
  "getLine stamped_editor (cursor_line stamped_editor - 1) = js ''31. Aug 2025 plain text''"
  "plugin_isCursorInListLine (js ''31. Aug 2025 plain text'')"
  by (simp_all add: substring_def stamped_editor_def plugin_isCursorInListLine_def rx_eval)

section \<open>The value of the resolver\<close>

lemma resolver_value:
  assumes "getInsertPositionInLineFromText lib lineText flag fmt cb \<noteq> - 1"
  shows "getInsertPositionInLineFromText lib lineText flag fmt cb =
           (if isCursorInListLine lineText then getInsertPositionAfterBullet lineText else 0) \<and>
         (isCursorInListLine lineText \<longrightarrow> flag)"
  using assms
  by (auto simp: getInsertPositionInLineFromText_def Let_def split: if_splits parsed.splits)

lemma resolver_range:
  "getInsertPositionInLineFromText lib lineText flag fmt cb = - 1 \<or>
   (0 \<le> getInsertPositionInLineFromText lib lineText flag fmt cb \<and>
    getInsertPositionInLineFromText lib lineText flag fmt cb \<le> int (length lineText))"
proof (cases "getInsertPositionInLineFromText lib lineText flag fmt cb = - 1")
  case True
  then show ?thesis by simp
next
  case False
  from resolver_value [OF False]
  have v: "getInsertPositionInLineFromText lib lineText flag fmt cb =
      (if isCursorInListLine lineText then getInsertPositionAfterBullet lineText else 0)"
    by (rule conjunct1)
  show ?thesis
    using after_bullet_range [of lineText] unfolding v
    by (cases "isCursorInListLine lineText") simp_all
qed

section \<open>The resolver on task lines and code fences\<close>

text \<open>
  C2. A line that matches the task-list pattern is skipped: the resolver returns \<open>-1\<close>
  for either value of the append-to-list-lines flag, for every format pattern and
  whatever the code-fence predicate says.  Such a line always matches the bullet
  pattern as well; the task test comes first, so the bullet branch is never reached
  and the flag has no effect.
\<close>

theorem task_line_skips:
  assumes "isListLineTask lineText"
  shows "getInsertPositionInLineFromText lib lineText flag fmt cb = - 1 \<and>
         isCursorInListLine lineText"
  using assms task_is_bullet [OF assms] by (simp add: getInsertPositionInLineFromText_def)

theorem task_line_skips_witness:
  "isListLineTask (js ''- [ ] task'') \<and> isCursorInListLine (js ''- [ ] task'') \<and>
   getInsertPositionAfterBullet (js ''- [ ] task'') = 2 \<and>
   getInsertPositionInLineFromText sample_lib (js ''- [ ] task'') True
     (js ''YYYY-MM-DD HH:mm:ssZ'') isCodeBlockStartEnd = - 1"
proof -
  have h: "isListLineTask (js ''- [ ] task'')"
    by (simp add: rx_eval)
  have b: "isCursorInListLine (js ''- [ ] task'')"
    "getInsertPositionAfterBullet (js ''- [ ] task'') = 2"
    by (simp_all add: rx_eval)
  show ?thesis
    using h b task_line_skips [OF h, of sample_lib True "js ''YYYY-MM-DD HH:mm:ssZ''" isCodeBlockStartEnd]
    by simp
qed

text \<open>
  C4. A code-fence boundary line (it starts with a backtick or ends with three
  backticks) is skipped: the resolver returns \<open>-1\<close> whether or not the line is also a
  bullet or a task line, for either value of the flag and for every format pattern.
\<close>

theorem code_fence_skips:
  assumes "isCodeBlockStartEnd lineText"
  shows "getInsertPositionInLineFromText lib lineText flag fmt isCodeBlockStartEnd = - 1"
  using assms by (simp add: getInsertPositionInLineFromText_def Let_def)

theorem code_fence_skips_witness:
  "isCodeBlockStartEnd (js ''- ```'') \<and> isCursorInListLine (js ''- ```'') \<and>
   \<not> isListLineTask (js ''- ```'') \<and>
   getInsertPositionInLineFromText sample_lib (js ''- ```'') True
     (js ''YYYY-MM-DD HH:mm:ssZ'') isCodeBlockStartEnd = - 1"
proof -
  have h: "isCodeBlockStartEnd (js ''- ```'')"
    by (simp add: isCodeBlockStartEnd_def js_def)
  have b: "isCursorInListLine (js ''- ```'')" "\<not> isListLineTask (js ''- ```'')"
    by (simp_all add: rx_eval)
  show ?thesis
    using h b code_fence_skips [OF h, of sample_lib True "js ''YYYY-MM-DD HH:mm:ssZ''"]
    by simp
qed

section \<open>Bullet lines\<close>

text \<open>
  C3. On a line that matches the bullet pattern and not the task pattern, the resolver
  returns \<open>-1\<close> when the append-to-list-lines flag is off.  Such a line is indentation,
  a list marker, a non-empty run of white space and a rest that does not begin with
  white space; the offset after the bullet is the length of the first three together,
  the indentation counted.  With the flag on this is the candidate offset: it is what
  the resolver returns unless the line is a code fence or the text at that offset
  already parses (or the parser throws), when it returns \<open>-1\<close>.  The split of a line
  into these four parts is unique (\<open>bullet_end_unique\<close>).
\<close>

theorem bullet_line_offset:
  assumes "isCursorInListLine lineText" and "\<not> isListLineTask lineText"
  shows "getInsertPositionInLineFromText lib lineText False fmt cb = - 1 \<and>
    (\<exists>ind mk ws rest.
       lineText = ind @ mk @ ws @ rest \<and> list_all isSpace ind \<and> is_marker mk \<and>
       ws \<noteq> [] \<and> list_all isSpace ws \<and> (rest = [] \<or> \<not> isSpace (hd rest)) \<and>
       getInsertPositionAfterBullet lineText = int (length (ind @ mk @ ws)) \<and>
       getInsertPositionInLineFromText lib lineText True fmt cb =
         (if cb lineText then - 1
          else case strict_parse lib fmt
                 (substring lineText (int (length (ind @ mk @ ws)))
                    (int (length (ind @ mk @ ws)) +
                     int (length (format_now lib Local None fmt)))) of
                 Invalid \<Rightarrow> int (length (ind @ mk @ ws))
               | _ \<Rightarrow> - 1))"
proof -
  from assms(1) obtain e where e: "bullet_end lineText = Some e"
    by (auto simp: isCursorInListLine_iff)
  have pos: "getInsertPositionAfterBullet lineText = int e"
    using e by (simp add: getInsertPositionAfterBullet_eq)
  from bullet_end_decomp [OF e] obtain ind mk ws rest where
    d: "lineText = ind @ mk @ ws @ rest" "list_all isSpace ind" "is_marker mk" "ws \<noteq> []"
       "list_all isSpace ws" "rest = [] \<or> \<not> isSpace (hd rest)" and len: "e = length (ind @ mk @ ws)"
    by blast
  have off: "getInsertPositionInLineFromText lib lineText False fmt cb = - 1"
    using assms by (simp add: getInsertPositionInLineFromText_def)
  have on: "getInsertPositionInLineFromText lib lineText True fmt cb =
         (if cb lineText then - 1
          else case strict_parse lib fmt
                 (substring lineText (int e) (int e + int (length (format_now lib Local None fmt)))) of
                 Invalid \<Rightarrow> int e
               | _ \<Rightarrow> - 1)"
    using assms pos by (simp add: getInsertPositionInLineFromText_def Let_def split: parsed.split)
  have on': "getInsertPositionInLineFromText lib lineText True fmt cb =
         (if cb lineText then - 1
          else case strict_parse lib fmt
                 (substring lineText (int (length (ind @ mk @ ws)))
                    (int (length (ind @ mk @ ws)) +
                     int (length (format_now lib Local None fmt)))) of
                 Invalid \<Rightarrow> int (length (ind @ mk @ ws))
               | _ \<Rightarrow> - 1)"
    using on unfolding len .
  have pos': "getInsertPositionAfterBullet lineText = int (length (ind @ mk @ ws))"
    using pos unfolding len .
  show ?thesis
  proof (rule conjI [OF off], intro exI conjI)
    show "lineText = ind @ mk @ ws @ rest" by (rule d(1))
    show "list_all isSpace ind" by (rule d(2))
    show "is_marker mk" by (rule d(3))
    show "ws \<noteq> []" by (rule d(4))
    show "list_all isSpace ws" by (rule d(5))
    show "rest = [] \<or> \<not> isSpace (hd rest)" by (rule d(6))
    show "getInsertPositionAfterBullet lineText = int (length (ind @ mk @ ws))" by (rule pos')
    show "getInsertPositionInLineFromText lib lineText True fmt cb =
         (if cb lineText then - 1
          else case strict_parse lib fmt
                 (substring lineText (int (length (ind @ mk @ ws)))
                    (int (length (ind @ mk @ ws)) +
                     int (length (format_now lib Local None fmt)))) of
                 Invalid \<Rightarrow> int (length (ind @ mk @ ws))
               | _ \<Rightarrow> - 1)" by (rule on')
  qed
qed

theorem bullet_line_offset_witness:
  "isCursorInListLine (js ''  3. item'') \<and> \<not> isListLineTask (js ''  3. item'') \<and>
   getInsertPositionInLineFromText sample_lib (js ''  3. item'') False
     (js ''YYYY-MM-DD HH:mm:ssZ'') isCodeBlockStartEnd = - 1 \<and>
   getInsertPositionInLineFromText sample_lib (js ''  3. item'') True
     (js ''YYYY-MM-DD HH:mm:ssZ'') isCodeBlockStartEnd = 5 \<and>
   getInsertPositionInLineFromText sample_lib (js ''- item'') True
     (js ''YYYY-MM-DD HH:mm:ssZ'') isCodeBlockStartEnd = 2 \<and>
   getInsertPositionInLineFromText sample_lib (js ''1. item'') True
     (js ''YYYY-MM-DD HH:mm:ssZ'') isCodeBlockStartEnd = 3"
proof -
  have e: "getInsertPositionInLineFromText sample_lib (js ''  3. item'') True
     (js ''YYYY-MM-DD HH:mm:ssZ'') isCodeBlockStartEnd = 5"
   "getInsertPositionInLineFromText sample_lib (js ''- item'') True
     (js ''YYYY-MM-DD HH:mm:ssZ'') isCodeBlockStartEnd = 2"
   "getInsertPositionInLineFromText sample_lib (js ''1. item'') True
     (js ''YYYY-MM-DD HH:mm:ssZ'') isCodeBlockStartEnd = 3"
    by (simp_all add: getInsertPositionInLineFromText_def sample_lines sample_fences
        sample_lib_default(1,3,4,5) sample_substrings)
  show ?thesis
    using e sample_lines(1,2)
      bullet_line_offset [OF sample_lines(1,2), of sample_lib "js ''YYYY-MM-DD HH:mm:ssZ''"
        isCodeBlockStartEnd]
    by simp
qed

section \<open>Duplicate detection\<close>

text \<open>
  C5. When none of the earlier steps fires (the line is no task line, it is no bullet
  line unless the flag is on, and it is no code fence), the resolver strict-parses the
  part of the line that starts at the candidate offset and is as long as a timestamp
  formatted with the pattern.  For a parse that returns, the resolver gives \<open>-1\<close>
  exactly when that text is a valid timestamp, and the candidate offset otherwise.  The
  line of the test, which begins with \<open>2025-08-31 12:00:00+00:00\<close>, is skipped.
\<close>

theorem duplicate_detection:
  fixes lib lineText flag fmt cb
  defines "pos \<equiv> (if isCursorInListLine lineText then getInsertPositionAfterBullet lineText else 0)"
  defines "sub \<equiv> substring lineText pos (pos + int (length (format_now lib Local None fmt)))"
  assumes "\<not> isListLineTask lineText" and "isCursorInListLine lineText \<Longrightarrow> flag"
    and "\<not> cb lineText" and "strict_parse lib fmt sub \<noteq> Throws"
  shows "(getInsertPositionInLineFromText lib lineText flag fmt cb = - 1) =
           (strict_parse lib fmt sub = Valid) \<and>
         (strict_parse lib fmt sub \<noteq> Valid \<longrightarrow>
            getInsertPositionInLineFromText lib lineText flag fmt cb = pos)"
proof -
  have nonneg: "0 \<le> pos"
    using after_bullet_range [of lineText] by (simp add: pos_def)
  have r: "getInsertPositionInLineFromText lib lineText flag fmt cb =
      (case strict_parse lib fmt sub of Valid \<Rightarrow> - 1 | Invalid \<Rightarrow> pos | Throws \<Rightarrow> - 1)"
    unfolding pos_def sub_def getInsertPositionInLineFromText_def Let_def
    using assms(3-5) by (simp split: parsed.split)
  show ?thesis
    using assms(6) nonneg unfolding r by (cases "strict_parse lib fmt sub") simp_all
qed

theorem duplicate_detection_witness:
  "\<not> isListLineTask (js ''2025-08-31 12:00:00+00:00 something'') \<and>
   \<not> isCursorInListLine (js ''2025-08-31 12:00:00+00:00 something'') \<and>
   \<not> isCodeBlockStartEnd (js ''2025-08-31 12:00:00+00:00 something'') \<and>
   strict_parse sample_lib (js ''YYYY-MM-DD HH:mm:ssZ'')
     (substring (js ''2025-08-31 12:00:00+00:00 something'') 0 25) = Valid \<and>
   getInsertPositionInLineFromText sample_lib (js ''2025-08-31 12:00:00+00:00 something'') True
     (js ''YYYY-MM-DD HH:mm:ssZ'') isCodeBlockStartEnd = - 1"
  using duplicate_detection [where lineText = "js ''2025-08-31 12:00:00+00:00 something''"
      and flag = True and cb = isCodeBlockStartEnd and lib = sample_lib
      and fmt = "js ''YYYY-MM-DD HH:mm:ssZ''"]
  by (simp add: sample_stamped sample_lib_default(1,3))



section \<open>The result of the resolver\<close>

text \<open>
  C10. The resolver returns either \<open>-1\<close> or an offset between \<open>0\<close> and the length of
  the line.  On a line that matches the bullet pattern the offset after the bullet is
  such an offset and never \<open>-1\<close>, so the bullet branch, taken only on such lines,
  cannot produce the sentinel as a candidate.
\<close>

theorem result_range:
  "(getInsertPositionInLineFromText lib lineText flag fmt cb = - 1 \<or>
    (0 \<le> getInsertPositionInLineFromText lib lineText flag fmt cb \<and>
     getInsertPositionInLineFromText lib lineText flag fmt cb \<le> int (length lineText))) \<and>
   (isCursorInListLine lineText \<longrightarrow>
      0 \<le> getInsertPositionAfterBullet lineText \<and>
      getInsertPositionAfterBullet lineText \<le> int (length lineText))"
  using resolver_range [of lib lineText flag fmt cb] after_bullet_range [of lineText]
  by blast

theorem result_range_witness:
  "isCursorInListLine (js ''- item'') \<and>
   0 \<le> getInsertPositionAfterBullet (js ''- item'') \<and>
   getInsertPositionAfterBullet (js ''- item'') \<le> int (length (js ''- item'')) \<and>
   getInsertPositionAfterBullet (js ''- item'') = 2"
  using result_range [of sample_lib "js ''- item''" True "js ''YYYY-MM-DD HH:mm:ssZ''"
      isCodeBlockStartEnd] sample_lines(4,6)
  by simp

section \<open>A pattern that cannot be formatted\<close>

lemma call_returns_value:
  assumes "getInsertPositionInLineFromText_call ft lib lineText flag fmt cb = Inr r"
  shows "r = getInsertPositionInLineFromText lib lineText flag fmt cb"
  using assms
  unfolding getInsertPositionInLineFromText_call_def getInsertPositionInLineFromText_def Let_def
  by (auto split: if_splits parsed.splits)

lemma call_without_exception:
  assumes "\<not> ft fmt"
  shows "getInsertPositionInLineFromText_call ft lib lineText flag fmt cb =
           Inr (getInsertPositionInLineFromText lib lineText flag fmt cb)"
  using assms
  unfolding getInsertPositionInLineFromText_call_def getInsertPositionInLineFromText_def Let_def
  by (simp split: parsed.split)

lemma call_raises_iff:
  "(getInsertPositionInLineFromText_call ft lib lineText flag fmt cb = Inl TypeError) =
     (\<not> isListLineTask lineText \<and> (isCursorInListLine lineText \<longrightarrow> flag) \<and>
      \<not> cb lineText \<and> ft fmt)"
  unfolding getInsertPositionInLineFromText_call_def Let_def
  by (auto split: parsed.splits)

text \<open>
  C7. The pattern that consists of one line feed cannot be formatted:
  \<open>moment().format\<close> throws on it.  That call stands before the \<open>try\<close> block, so on the
  line \<open>plain text\<close>, for either value of the flag, the exception leaves the resolver:
  no offset is returned, where the claim has the failure contained and the candidate
  offset \<open>0\<close> returned, as it is under the default pattern.
\<close>

theorem format_exception_propagates:
  "moment_format_throws [10] \<and>
   getInsertPositionInLineFromText_call moment_format_throws sample_lib (js ''plain text'') True
     [10] isCodeBlockStartEnd = Inl TypeError \<and>
   getInsertPositionInLineFromText_call moment_format_throws sample_lib (js ''plain text'') False
     [10] isCodeBlockStartEnd = Inl TypeError \<and>
   getInsertPositionInLineFromText_call moment_format_throws sample_lib (js ''plain text'') True
     (js ''YYYY-MM-DD HH:mm:ssZ'') isCodeBlockStartEnd = Inr 0"
proof -
  have t: "moment_format_throws [10]"
    by (simp add: moment_format_throws_def isLineTerminator_def)
  have n: "\<not> moment_format_throws (js ''YYYY-MM-DD HH:mm:ssZ'')"
    by (simp add: moment_format_throws_def isLineTerminator_def js_def)
  have r: "getInsertPositionInLineFromText sample_lib (js ''plain text'') True
     (js ''YYYY-MM-DD HH:mm:ssZ'') isCodeBlockStartEnd = 0"
    by (simp add: getInsertPositionInLineFromText_def sample_lines sample_fences
        sample_lib_default(1,5) sample_substrings)
  show ?thesis
    using t r sample_lines(10,11) sample_fences(4)
    by (simp add: call_raises_iff
        call_without_exception [where ft = moment_format_throws, OF n])
qed

section \<open>Running the resolver again\<close>

text \<open>
  Where running the resolver again does skip.  Let the resolver return an offset
  \<open>p \<ge> 0\<close> on a line, and let the text of \<open>getFormattedTimestamp\<close> be put into the line
  at \<open>p\<close>.  If that text begins with a timestamp \<open>ts\<close> that is as long as the resolver
  expects and that the library parses strictly under the pattern, and if, when the flag
  is on, the new line has its bullet where the old one had it, then the resolver
  returns \<open>-1\<close> on the new line.
\<close>

lemma reinsertion_skips:
  fixes lib lineText flag fmt cb st ts sfx
  defines "p \<equiv> getInsertPositionInLineFromText lib lineText flag fmt cb"
  defines "line' \<equiv> take (nat p) lineText @ getFormattedTimestamp lib st @ drop (nat p) lineText"
  assumes "0 \<le> p"
    and "getFormattedTimestamp lib st = ts @ sfx"
    and "length ts = length (format_now lib Local None fmt)"
    and "strict_parse lib fmt ts = Valid"
    and "flag \<Longrightarrow>
           (if isCursorInListLine line' then getInsertPositionAfterBullet line' = p else p = 0)"
  shows "getInsertPositionInLineFromText lib line' flag fmt cb = - 1"
proof -
  have pne: "getInsertPositionInLineFromText lib lineText flag fmt cb \<noteq> - 1"
    using assms(3) by (simp add: p_def)
  have ple: "nat p \<le> length lineText"
    using resolver_range [of lib lineText flag fmt cb] pne unfolding p_def by linarith
  have pval: "p = (if isCursorInListLine lineText then getInsertPositionAfterBullet lineText else 0)"
    and pflag: "isCursorInListLine lineText \<longrightarrow> flag"
    using resolver_value [OF pne] by (simp_all add: p_def)
  have line': "line' = take (nat p) lineText @ ts @ (sfx @ drop (nat p) lineText)"
    by (simp add: line'_def assms(4))
  have sub: "substring line' p (p + int (length (format_now lib Local None fmt))) = ts"
    using substring_inserted [OF ple, of ts "sfx @ drop (nat p) lineText"] assms(3,5)
    by (simp add: line')
  have pos': "\<not> isCursorInListLine line' \<or> \<not> flag \<or> getInsertPositionAfterBullet line' = p"
    using assms(7) by (cases flag) (simp_all split: if_splits)
  have zero: "\<not> isCursorInListLine line' \<Longrightarrow> p = 0"
  proof (cases flag)
    case True
    assume "\<not> isCursorInListLine line'"
    with assms(7) True show ?thesis by simp
  next
    case False
    with pflag pval show ?thesis by simp
  qed
  show ?thesis
  proof (cases "isCursorInListLine line'")
    case True
    with pos' sub assms(6) show ?thesis
      by (auto simp: getInsertPositionInLineFromText_def Let_def)
  next
    case False
    with zero sub assms(6) show ?thesis
      by (auto simp: getInsertPositionInLineFromText_def Let_def)
  qed
qed

lemma reinsertion_skips_bullet_line:
  "0 \<le> getInsertPositionInLineFromText sample_lib (js ''- item'') True
          (js ''YYYY-MM-DD HH:mm:ssZ'') isCodeBlockStartEnd \<and>
   getFormattedTimestamp sample_lib sample_settings = js ''2025-08-31 12:00:00+00:00'' @ js '' '' \<and>
   length (js ''2025-08-31 12:00:00+00:00'')
     = length (format_now sample_lib Local None (js ''YYYY-MM-DD HH:mm:ssZ'')) \<and>
   strict_parse sample_lib (js ''YYYY-MM-DD HH:mm:ssZ'') (js ''2025-08-31 12:00:00+00:00'') = Valid \<and>
   isCursorInListLine (js ''- 2025-08-31 12:00:00+00:00 item'') \<and>
   getInsertPositionAfterBullet (js ''- 2025-08-31 12:00:00+00:00 item'') = 2 \<and>
   getInsertPositionInLineFromText sample_lib (js ''- 2025-08-31 12:00:00+00:00 item'') True
     (js ''YYYY-MM-DD HH:mm:ssZ'') isCodeBlockStartEnd = - 1"
proof -
  have len: "length (js ''2025-08-31 12:00:00+00:00'')
     = length (format_now sample_lib Local None (js ''YYYY-MM-DD HH:mm:ssZ''))"
    by (simp add: sample_lib_default(1)) (simp add: js_def)
  show ?thesis
    using len sample_restamped sample_lib_default(3)
      reinsertion_skips [where lib = sample_lib and lineText = "js ''- item''" and flag = True
        and fmt = "js ''YYYY-MM-DD HH:mm:ssZ''" and cb = isCodeBlockStartEnd
        and st = sample_settings and ts = "js ''2025-08-31 12:00:00+00:00''" and sfx = "js '' ''"]
    by simp
qed

text \<open>
  C1. Inserting the timestamp and running the resolver again does not always skip.
  Under the pattern \<open>D. MMM YYYY\<close> and with the flag on, \<open>plain text\<close> resolves to \<open>0\<close>
  and is stamped to \<open>31. Aug 2025 plain text\<close>.  That line begins with a timestamp that
  parses, but it also matches the bullet pattern (\<open>31.\<close> and a space), so the resolver
  looks only at the twelve characters after the bullet, \<open>Aug 2025 pla\<close>, and returns
  \<open>4\<close>: the next stamp goes inside the first.  With the flag off, and in the resolver
  of \<open>main.ts\<close>, the same line is skipped.
\<close>

theorem restamped_line_not_skipped:
  "getInsertPositionInLineFromText sample_lib (js ''plain text'') True (js ''D. MMM YYYY'')
     isCodeBlockStartEnd = 0 \<and>
   getFormattedTimestamp sample_lib (sample_settings\<lparr>timestampFormat := js ''D. MMM YYYY''\<rparr>)
     = js ''31. Aug 2025 '' \<and>
   take 0 (js ''plain text'') @ js ''31. Aug 2025 '' @ drop 0 (js ''plain text'')
     = js ''31. Aug 2025 plain text'' \<and>
   strict_parse sample_lib (js ''D. MMM YYYY'')
     (substring (js ''31. Aug 2025 plain text'') 0 12) = Valid \<and>
   getInsertPositionInLineFromText sample_lib (js ''31. Aug 2025 plain text'') True
     (js ''D. MMM YYYY'') isCodeBlockStartEnd = 4 \<and>
   take 4 (js ''31. Aug 2025 plain text'') @ js ''31. Aug 2025 ''
       @ drop 4 (js ''31. Aug 2025 plain text'')
     = js ''31. 31. Aug 2025 Aug 2025 plain text'' \<and>
   getInsertPositionInLineFromText sample_lib (js ''31. Aug 2025 plain text'') False
     (js ''D. MMM YYYY'') isCodeBlockStartEnd = - 1 \<and>
   getInsertPositionInLine sample_lib
     (sample_plugin\<lparr>settings := sample_settings\<lparr>timestampFormat := js ''D. MMM YYYY''\<rparr>\<rparr>)
     stamped_editor = - 1"
proof -
  have a: "getInsertPositionInLineFromText sample_lib (js ''plain text'') True (js ''D. MMM YYYY'')
     isCodeBlockStartEnd = 0"
    by (simp add: getInsertPositionInLineFromText_def sample_lines sample_fences
        sample_counter(2,4) sample_counter_line)
  have b: "getFormattedTimestamp sample_lib (sample_settings\<lparr>timestampFormat := js ''D. MMM YYYY''\<rparr>)
     = js ''31. Aug 2025 ''"
    by (simp add: getFormattedTimestamp_def sample_settings_def sample_lib_def sample_format_def
        js_def)
  have c: "take 0 (js ''plain text'') @ js ''31. Aug 2025 '' @ drop 0 (js ''plain text'')
     = js ''31. Aug 2025 plain text''"
    "take 4 (js ''31. Aug 2025 plain text'') @ js ''31. Aug 2025 ''
       @ drop 4 (js ''31. Aug 2025 plain text'')
     = js ''31. 31. Aug 2025 Aug 2025 plain text''"
    by (simp_all add: js_def)
  have v: "strict_parse sample_lib (js ''D. MMM YYYY'')
     (substring (js ''31. Aug 2025 plain text'') 0 12) = Valid"
    by (simp add: sample_stamped_start sample_counter(3))
  have d: "getInsertPositionInLineFromText sample_lib (js ''31. Aug 2025 plain text'') True
     (js ''D. MMM YYYY'') isCodeBlockStartEnd = 4"
    by (simp add: getInsertPositionInLineFromText_def sample_counter(2,5) sample_counter_line)
  have e: "getInsertPositionInLineFromText sample_lib (js ''31. Aug 2025 plain text'') False
     (js ''D. MMM YYYY'') isCodeBlockStartEnd = - 1"
    by (simp add: getInsertPositionInLineFromText_def sample_counter_line)
  have f: "getInsertPositionInLine sample_lib
     (sample_plugin\<lparr>settings := sample_settings\<lparr>timestampFormat := js ''D. MMM YYYY''\<rparr>\<rparr>)
     stamped_editor = - 1"
    by (simp add: getInsertPositionInLine_def sample_stamped_start Let_def)
  show ?thesis using a b c v d e f by simp
qed

section \<open>The delay and offset fields of the settings tab\<close>

lemma delay_upper_bound:
  assumes "addAfterDelay (settings (addAfterDelay_onChange v p)) = Num d"
  shows "d \<le> 1234"
  using assms
  by (auto simp: addAfterDelay_onChange_def saveSettings_def resetTimeStampInsertTimestamp_def
      Math_max1_def Math_min_def Let_def split: jsnum.splits)

lemma offset_input_ignored:
  assumes "parseInt v = NaN"
  shows "timezoneOffset_onChange v p = p"
  using assms by (simp add: timezoneOffset_onChange_def isNaN_def)

text \<open>
  C8. The handler of the delay field stores \<open>min(parseInt(value), 1234)\<close>: the value is
  bounded above only.  The input \<open>-5\<close> stores \<open>-5\<close> and the input \<open>abc\<close> replaces the
  stored delay, 60, by \<open>NaN\<close>; \<open>5000\<close> stores 1234.  The handler of the offset field
  does leave the plugin as it was on \<open>abc\<close>.
\<close>

theorem delay_input_not_validated:
  "addAfterDelay (settings sample_plugin) = Num 60 \<and>
   addAfterDelay (settings (addAfterDelay_onChange (js ''-5'') sample_plugin)) = Num (- 5) \<and>
   addAfterDelay (settings (addAfterDelay_onChange (js ''abc'') sample_plugin)) = NaN \<and>
   addAfterDelay (settings (addAfterDelay_onChange (js ''5000'') sample_plugin)) = Num 1234 \<and>
   timezoneOffset_onChange (js ''abc'') sample_plugin = sample_plugin"
  by (simp add: addAfterDelay_onChange_def timezoneOffset_onChange_def saveSettings_def
      resetTimeStampInsertTimestamp_def Math_max1_def Math_min_def isNaN_def parseInt_samples
      sample_plugin_def sample_settings_def)

section \<open>The rate guard\<close>

lemma diff_seconds_nonneg: "before \<le> now \<Longrightarrow> 0 \<le> diff_seconds now before"
  by (simp add: diff_seconds_def Let_def)

lemma nan_delay_never_throttles:
  assumes "addAfterDelay (settings p) = NaN"
  shows "fst (keyup lib key active_editor active_file now now' p) \<noteq> Throttled"
  using assms
  by (auto simp: keyup_def Let_def js_lt_def resetTimeStampInsertTimestamp_def
      insertTextAtLine_def split: option.splits)

text \<open>
  C9. With the plugin on, an editor and a file present and a numeric delay \<open>d\<close>, the
  handler of the Enter key goes past the rate guard exactly when the whole seconds
  elapsed since the recorded instant of the last insertion (the epoch, after a change
  of file) are at least \<open>d\<close>.  With \<open>d = 0\<close> and that instant not in the future it
  always does.
\<close>

theorem rate_guard:
  fixes lib ed name now now' p d
  defines "before \<equiv> (if currFileName p \<noteq> name then 0 else lastTimeStampInsertTimestamp p)"
  assumes "tiditOn (settings p)" and "addAfterDelay (settings p) = Num d"
  shows "(fst (keyup lib (js ''Enter'') (Some ed) (Some name) now now' p) \<noteq> Throttled)
           = (d \<le> diff_seconds now before) \<and>
         (d = 0 \<and> before \<le> now \<longrightarrow>
            fst (keyup lib (js ''Enter'') (Some ed) (Some name) now now' p) \<noteq> Throttled)"
proof -
  have iff: "(fst (keyup lib (js ''Enter'') (Some ed) (Some name) now now' p) \<noteq> Throttled)
           = (d \<le> diff_seconds now before)"
    using assms(2,3)
    by (auto simp: keyup_def before_def Let_def js_lt_def resetTimeStampInsertTimestamp_def
        insertTextAtLine_def)
  show ?thesis
    using iff diff_seconds_nonneg [of before now] by auto
qed

theorem rate_guard_witness:
  "tiditOn (settings sample_plugin) \<and> addAfterDelay (settings sample_plugin) = Num 60 \<and>
   60 \<le> diff_seconds 61000 0 \<and>
   fst (keyup sample_lib (js ''Enter'') (Some sample_editor) (Some (js ''a.md'')) 61000 61001
          sample_plugin) \<noteq> Throttled"
proof -
  have h: "tiditOn (settings sample_plugin)" "addAfterDelay (settings sample_plugin) = Num 60"
    by (simp_all add: sample_plugin_def sample_settings_def)
  have f: "currFileName sample_plugin = js ''a.md''" "lastTimeStampInsertTimestamp sample_plugin = 0"
    by (simp_all add: sample_plugin_def)
  have d: "(60::int) \<le> diff_seconds 61000 0"
    by (simp add: diff_seconds_def)
  show ?thesis
    using h d f rate_guard [OF h, of sample_lib sample_editor "js ''a.md''" 61000 61001]
    by simp
qed

end
